theory Spec2Isabelle
  imports Main "HOL-Library.AList"
begin

section \<open>Python values and library functions used by the add-on\<close>

text \<open>
  The add-on is Python. Exceptions are values of \<open>py_error\<close>; a dictionary whose
  iteration order is observed (\<open>file_pair_index\<close>) is an association list updated with
  \<open>AList.update\<close>, which keeps the position of an existing key and appends a new one, as a
  Python dict does; dictionaries that are only read by key are maps.
\<close>

datatype py_error = KeyError | TypeError

definition newline :: char where
  "newline = CHR 0x0A"

definition os_sep :: char where
  "os_sep = CHR ''/''"

definition extsep :: char where
  "extsep = CHR ''.''"

text \<open>\<open>str.rfind\<close> for a single character: the last index, or \<open>-1\<close>.\<close>

fun rfind :: "string \<Rightarrow> char \<Rightarrow> int" where
  "rfind [] c = - 1"
| "rfind (x # xs) c =
     (let r = rfind xs c in if 0 \<le> r then r + 1 else if x = c then 0 else - 1)"

text \<open>
  \<open>os.path.splitext\<close> (posixpath): the extension starts at the last dot, provided that
  dot comes after the last separator and some character between the separator and the dot
  is not a dot (leading dots do not start an extension).
\<close>

definition splitext :: "string \<Rightarrow> string \<times> string" where
  "splitext p =
     (let sepIndex = rfind p os_sep;
          dotIndex = rfind p extsep
      in if sepIndex < dotIndex \<and>
            list_ex (\<lambda>c. c \<noteq> extsep)
              (take (nat (dotIndex - (sepIndex + 1))) (drop (nat (sepIndex + 1)) p))
         then (take (nat dotIndex) p, drop (nat dotIndex) p)
         else (p, []))"

text \<open>
  Strings are lists of 8-bit characters, one \<open>char\<close> per character of the Python string.
  \<open>str.lower\<close> is modelled on the ASCII letters.
\<close>

definition lower_char :: "char \<Rightarrow> char" where
  "lower_char c =
     (let n = (of_char c :: nat) in if 65 \<le> n \<and> n \<le> 90 then char_of (n + 32) else c)"

definition lower :: "string \<Rightarrow> string" where
  "lower s = map lower_char s"

text \<open>\<open>str(i)\<close> for a non-negative integer.\<close>

definition digit_char :: "nat \<Rightarrow> char" where
  "digit_char d = char_of (48 + d)"

fun str_nat :: "nat \<Rightarrow> string" where
  "str_nat n = (if n < 10 then [digit_char n] else str_nat (n div 10) @ [digit_char (n mod 10)])"

text \<open>\<open>sep.join(xs)\<close> and \<open>s.split(sep)\<close> for a one-character separator.\<close>

fun join :: "string \<Rightarrow> string list \<Rightarrow> string" where
  "join sep [] = []"
| "join sep [x] = x"
| "join sep (x # y # ys) = x @ sep @ join sep (y # ys)"

fun split_char :: "char \<Rightarrow> string \<Rightarrow> string list" where
  "split_char sep [] = [[]]"
| "split_char sep (c # cs) =
     (if c = sep then [] # split_char sep cs
      else (case split_char sep cs of
              [] \<Rightarrow> [[c]]
            | w # ws \<Rightarrow> (c # w) # ws))"

text \<open>\<open>s.replace(" ", "_")\<close>.\<close>

definition replace_space :: "string \<Rightarrow> string" where
  "replace_space s = map (\<lambda>c. if c = CHR '' '' then CHR ''_'' else c) s"

text \<open>\<open>os.path.join(a, b)\<close> (posixpath, two arguments).\<close>

definition path_join :: "string \<Rightarrow> string \<Rightarrow> string" where
  "path_join a b =
     (if b \<noteq> [] \<and> hd b = os_sep then b
      else if a = [] \<or> last a = os_sep then a @ b
      else a @ [os_sep] @ b)"

section \<open>Classification of file names\<close>

text \<open>
  Lines 115-119 and 162-167 of \<open>doMediaImport\<close>: the extension is everything after the dot of
  \<open>splitext\<close>, lower-cased, and the file is processed when it is in \<open>AUDIO + IMAGE\<close>
  (the host's tuples \<open>editor.audio\<close> and \<open>editor.pics\<close>, parameters here).
\<close>

definition media_name :: "string \<Rightarrow> string" where
  "media_name fileName = fst (splitext fileName)"

definition file_ext :: "string \<Rightarrow> string" where
  "file_ext fileName = lower (drop 1 (snd (splitext fileName)))"

definition is_media :: "string list \<Rightarrow> string \<Rightarrow> bool" where
  "is_media exts fileName = (file_ext fileName \<in> set exts)"

section \<open>Indexing primary and secondary files of one folder\<close>

text \<open>
  \<open>re.search(f".{re.escape(file_pair_suffix)}$", mediaName, re.MULTILINE)\<close>: at some
  position there is one character other than a line break, then the suffix literally, then
  the end of the string or a line break.
\<close>

definition suffix_match_here :: "string \<Rightarrow> string \<Rightarrow> bool" where
  "suffix_match_here suffix s =
     (case s of
        [] \<Rightarrow> False
      | c # rest \<Rightarrow>
          c \<noteq> newline \<and> take (length suffix) rest = suffix \<and>
          (case drop (length suffix) rest of [] \<Rightarrow> True | d # _ \<Rightarrow> d = newline))"

fun suffix_regex_search :: "string \<Rightarrow> string \<Rightarrow> bool" where
  "suffix_regex_search suffix [] = False"
| "suffix_regex_search suffix (c # cs) =
     (suffix_match_here suffix (c # cs) \<or> suffix_regex_search suffix cs)"

text \<open>The local variables of one folder's indexing (lines 101-111).\<close>

record folder_index =
  file_ending_index :: "string \<rightharpoonup> string"
  primary_media :: "string list"
  secondary_media :: "string list"
  secondary_media_matched :: "string \<rightharpoonup> bool"
  file_pair_index :: "(string \<times> string) list"

definition empty_index :: folder_index where
  "empty_index =
     \<lparr>file_ending_index = Map.empty, primary_media = [], secondary_media = [],
      secondary_media_matched = Map.empty, file_pair_index = []\<rparr>"

text \<open>Lines 113-128: the loop that fills the file ending index and the two name lists.\<close>

fun index_files :: "string list \<Rightarrow> string \<Rightarrow> string list \<Rightarrow> folder_index \<Rightarrow> folder_index" where
  "index_files exts suffix [] ix = ix"
| "index_files exts suffix (fileName # files) ix =
     (if \<not> is_media exts fileName then index_files exts suffix files ix
      else
        let mediaName = media_name fileName;
            ix1 = ix\<lparr>file_ending_index := (file_ending_index ix)(mediaName \<mapsto> fileName)\<rparr>;
            ix2 = (if suffix_regex_search suffix mediaName
                   then ix1\<lparr>secondary_media := secondary_media ix1 @ [mediaName]\<rparr>
                   else ix1\<lparr>primary_media := primary_media ix1 @ [mediaName]\<rparr>)
        in index_files exts suffix files ix2)"

text \<open>
  Lines 131-137: every trivial primary is matched with the file named by its name plus the
  suffix. Both subscriptions \<open>file_ending_index[...]\<close> raise \<open>KeyError\<close> on a missing key.
\<close>

fun match_primaries :: "string \<Rightarrow> string list \<Rightarrow> folder_index \<Rightarrow> py_error + folder_index" where
  "match_primaries suffix [] ix = Inr ix"
| "match_primaries suffix (pf # pfs) ix =
     (case file_ending_index ix pf of
        None \<Rightarrow> Inl KeyError
      | Some primary_filename \<Rightarrow>
          (case file_ending_index ix (pf @ suffix) of
             None \<Rightarrow> Inl KeyError
           | Some secondary_filename \<Rightarrow>
               match_primaries suffix pfs
                 (ix\<lparr>file_pair_index :=
                        AList.update primary_filename secondary_filename (file_pair_index ix),
                      secondary_media_matched :=
                        (secondary_media_matched ix)(pf @ suffix \<mapsto> True)\<rparr>)))"

text \<open>Lines 148-155: the same for the secondary names not matched so far.\<close>

fun match_secondaries :: "string \<Rightarrow> string list \<Rightarrow> folder_index \<Rightarrow> py_error + folder_index" where
  "match_secondaries suffix [] ix = Inr ix"
| "match_secondaries suffix (pf # pfs) ix =
     (if secondary_media_matched ix pf \<noteq> None then match_secondaries suffix pfs ix
      else
        (case file_ending_index ix pf of
           None \<Rightarrow> Inl KeyError
         | Some primary_filename \<Rightarrow>
             (case file_ending_index ix (pf @ suffix) of
                None \<Rightarrow> Inl KeyError
              | Some secondary_filename \<Rightarrow>
                  match_secondaries suffix pfs
                    (ix\<lparr>file_pair_index :=
                           AList.update primary_filename secondary_filename (file_pair_index ix),
                         secondary_media_matched :=
                           (secondary_media_matched ix)(pf @ suffix \<mapsto> True)\<rparr>))))"

text \<open>The state after the first pass, and the whole indexing of a folder (lines 113-155).\<close>

definition first_pass :: "string list \<Rightarrow> string \<Rightarrow> string list \<Rightarrow> py_error + folder_index" where
  "first_pass exts suffix files =
     (let ix = index_files exts suffix files empty_index
      in match_primaries suffix (primary_media ix) ix)"

definition index_folder :: "string list \<Rightarrow> string \<Rightarrow> string list \<Rightarrow> py_error + folder_index" where
  "index_folder exts suffix files =
     (case first_pass exts suffix files of
        Inl e \<Rightarrow> Inl e
      | Inr ix1 \<Rightarrow>
          (let sorted = sort_key length (secondary_media ix1)
           in match_secondaries suffix sorted (ix1\<lparr>secondary_media := sorted\<rparr>)))"


text \<open>
  Every entry of the file ending index is stored under the name that \<open>splitext\<close> gives
  for the stored file name (line 121); the invariant used to trace a pair back to its names.
\<close>

definition names_agree :: "(string \<rightharpoonup> string) \<Rightarrow> bool" where
  "names_agree fei = (\<forall>k f. fei k = Some f \<longrightarrow> media_name f = k)"

section \<open>Field mappings\<close>

text \<open>The class \<open>Actions(str, Enum)\<close> and the value of each member.\<close>

datatype Actions =
    Actions_nothing | Actions_media | Actions_media_2 | Actions_file_name
  | Actions_file_name_full | Actions_extension | Actions_extension_case_sensitive
  | Actions_sequence | Actions_folder_tags_individual | Actions_folder_tags_hierarchical

fun action_value :: "Actions \<Rightarrow> string" where
  "action_value Actions_nothing = []"
| "action_value Actions_media = ''Media''"
| "action_value Actions_media_2 = ''Media_2''"
| "action_value Actions_file_name = ''File Name''"
| "action_value Actions_file_name_full = ''File Name (full)''"
| "action_value Actions_extension = ''Extension''"
| "action_value Actions_extension_case_sensitive = ''Extension (case-sensitive)''"
| "action_value Actions_sequence = ''Sequence''"
| "action_value Actions_folder_tags_individual = ''Subfolder tags (individual)''"
| "action_value Actions_folder_tags_hierarchical = ''Subfolder tag (hierarchical)''"

text \<open>The host: the two extension tuples of the editor, the media store and the collection.\<close>

record Note =
  note_fields :: "(string \<times> string) list"
  note_tags :: "string list"

record host =
  AUDIO :: "string list"
  IMAGE :: "string list"
  add_file :: "string \<Rightarrow> string"
  addNote :: "Note \<Rightarrow> bool"

text \<open>\<open>data\<close> is a string, or a list of strings for the individual folder tags.\<close>

datatype data = DStr string | DList "string list"

definition sound_ref :: "string \<Rightarrow> string" where
  "sound_ref internalFileName = ''[sound:'' @ internalFileName @ '']''"

definition img_ref :: "string \<Rightarrow> string" where
  "img_ref internalFileName = ''<img src='' @ [CHR 0x22] @ internalFileName @ [CHR 0x22] @ ''>''"

text \<open>
  \<open>relative_path.split(os.sep)\<close> followed by \<open>if "." in data: data.remove(".")\<close>
  (\<open>list.remove\<close> deletes the first occurrence).
\<close>

definition folder_tags :: "string \<Rightarrow> string list" where
  "folder_tags relative_path = remove1 ''.'' (split_char os_sep relative_path)"

text \<open>
  Lines 178-216: the value of one mapping for the file at index \<open>i\<close> of the folder
  listing; \<open>None\<close> is \<open>continue\<close>. The action is the text of the combo box, compared with
  the members of \<open>Actions\<close> in the order of the \<open>elif\<close> chain.
\<close>

definition field_data ::
  "host \<Rightarrow> string \<Rightarrow> string \<Rightarrow> nat \<Rightarrow> string \<Rightarrow> string \<Rightarrow> string \<Rightarrow> data option" where
  "field_data h relative_path fileName i internalFileName internalFileName_2 action =
     (let mediaName = media_name fileName;
          ext = file_ext fileName
      in if action = action_value Actions_nothing then None
         else if action = action_value Actions_media then
           (if ext \<in> set (AUDIO h) then Some (DStr (sound_ref internalFileName))
            else if ext \<in> set (IMAGE h) then Some (DStr (img_ref internalFileName))
            else None)
         else if action = action_value Actions_media_2 then
           (if ext \<in> set (AUDIO h) then Some (DStr (sound_ref internalFileName_2))
            else if ext \<in> set (IMAGE h) then Some (DStr (img_ref internalFileName_2))
            else None)
         else if action = action_value Actions_file_name then Some (DStr mediaName)
         else if action = action_value Actions_file_name_full then Some (DStr fileName)
         else if action = action_value Actions_extension then Some (DStr ext)
         else if action = action_value Actions_extension_case_sensitive then
           Some (DStr (drop 1 (snd (splitext mediaName))))
         else if action = action_value Actions_sequence then Some (DStr (str_nat i))
         else if action = action_value Actions_folder_tags_individual then
           Some (DList (folder_tags relative_path))
         else if action = action_value Actions_folder_tags_hierarchical then
           Some (DStr (join ''::'' (folder_tags relative_path)))
         else None)"

text \<open>
  \<open>notes.Note(mw.col, model)\<close>: one empty value per field of the note type, no tags.
  \<open>note[field] = data\<close> raises \<open>KeyError\<close> for a name that is not a field of the note.
\<close>

definition new_note :: "string list \<Rightarrow> Note" where
  "new_note model = \<lparr>note_fields = map (\<lambda>f. (f, [])) model, note_tags = []\<rparr>"

definition set_field :: "Note \<Rightarrow> string \<Rightarrow> string \<Rightarrow> py_error + Note" where
  "set_field n field v =
     (if field \<in> fst ` set (note_fields n)
      then Inr (n\<lparr>note_fields := AList.update field v (note_fields n)\<rparr>)
      else Inl KeyError)"

text \<open>Lines 218-226: a value goes to the tags of the note, or into the field.\<close>

definition store_data :: "Note \<Rightarrow> string \<Rightarrow> bool \<Rightarrow> data \<Rightarrow> py_error + Note" where
  "store_data n field special d =
     (if special \<and> field = ''Tags'' then
        (let tag_list = (case d of DList l \<Rightarrow> l | DStr s \<Rightarrow> [s])
         in Inr (n\<lparr>note_tags := note_tags n @ map replace_space tag_list\<rparr>))
      else
        (let v = (case d of DList l \<Rightarrow> join '' '' l | DStr s \<Rightarrow> s)
         in set_field n field v))"

text \<open>Lines 177-226: the loop over the field list.\<close>

fun populate_fields ::
  "host \<Rightarrow> string \<Rightarrow> string \<Rightarrow> nat \<Rightarrow> string \<Rightarrow> string \<Rightarrow> (string \<times> string \<times> bool) list \<Rightarrow>
   Note \<Rightarrow> py_error + Note" where
  "populate_fields h rel fileName i f1 f2 [] n = Inr n"
| "populate_fields h rel fileName i f1 f2 ((field, action, special) # fieldList) n =
     (case field_data h rel fileName i f1 f2 action of
        None \<Rightarrow> populate_fields h rel fileName i f1 f2 fieldList n
      | Some d \<Rightarrow>
          (case store_data n field special d of
             Inl e \<Rightarrow> Inl e
           | Inr n' \<Rightarrow> populate_fields h rel fileName i f1 f2 fieldList n'))"


section \<open>Settings\<close>

text \<open>
  \<open>src/settings.py\<close>, the module that \<open>__init__.py\<close> imports (\<open>from .src.settings import\<close>).
  A settings value is a JSON value; the \<open>settings\<close> dictionary and the two persisted
  documents are maps from keys to values, compared as Python compares dicts (by key, not by
  order). What \<open>json.dump\<close> writes is what \<open>json.load\<close> reads back, and the host's add-on
  configuration returns what was last written to it.
\<close>

datatype jvalue =
    JNull | JBool bool | JNum int | JStr string | JList "jvalue list"
  | JDict "(string \<times> jvalue) list"

type_synonym settings = "string \<rightharpoonup> jvalue"

text \<open>
  The persisted state: \<open>user_data/transient_settings.json\<close> (absent before the first save)
  and the add-on configuration kept by the host.
\<close>

record disk =
  transient_file :: "settings option"
  addon_config :: settings

text \<open>\<open>dataclasses.asdict\<close> of the two default classes; \<open>home\<close> is \<open>os.path.expanduser("~")\<close>.\<close>

definition defaultTransientSettings :: "string \<Rightarrow> settings" where
  "defaultTransientSettings home =
     [''loadFolder'' \<mapsto> JStr home, ''includeSubfolders'' \<mapsto> JBool True,
      ''fieldSettings'' \<mapsto> JDict []]"

definition defaultUserSettings :: settings where
  "defaultUserSettings =
     [''secondMediaSuffix'' \<mapsto> JStr ''_2'', ''showExtensionActions'' \<mapsto> JBool False]"

definition default_user_keys :: "string list" where
  "default_user_keys = [''secondMediaSuffix'', ''showExtensionActions'']"

text \<open>
  Line 111: \<open>{**defaultTransientSettings, **defaultUserSettings, **transientSettings,
  **userSettings}\<close>; a later dictionary overrides an earlier one.
\<close>

definition mergedSettings :: "string \<Rightarrow> settings \<Rightarrow> settings \<Rightarrow> settings" where
  "mergedSettings home transientSettings userSettings =
     defaultTransientSettings home ++ defaultUserSettings ++ transientSettings ++ userSettings"

text \<open>Lines 83-115: every merged key is assigned into the global dictionary.\<close>

definition initializeSettings :: "string \<Rightarrow> disk \<Rightarrow> settings \<Rightarrow> settings" where
  "initializeSettings home d settings =
     (let transientSettings = (case transient_file d of None \<Rightarrow> Map.empty | Some t \<Rightarrow> t);
          userSettings = addon_config d
      in settings ++ mergedSettings home transientSettings userSettings)"

text \<open>
  Lines 118-136: the keys of \<open>DefaultSettings\<close> go to the host's configuration
  (\<open>settings[key]\<close> raises \<open>KeyError\<close> when one is missing), all others to the JSON file.
\<close>

definition saveSettings :: "settings \<Rightarrow> py_error + disk" where
  "saveSettings settings =
     (if list_all (\<lambda>key. settings key \<noteq> None) default_user_keys
      then Inr \<lparr>transient_file = Some (settings |` (- set default_user_keys)),
                addon_config = settings |` set default_user_keys\<rparr>
      else Inl KeyError)"

section \<open>The import run\<close>

text \<open>
  The folder chosen by the user, as \<open>os.walk\<close> sees it: the files of a folder in listing
  order and its subfolders in listing order.
\<close>

datatype folder = Folder (folder_name: string) (folder_files: "string list")
  (subfolders: "folder list")

text \<open>
  One item of \<open>os.walk(path)\<close>: \<open>root\<close>, the names of the folders from \<open>path\<close> down to
  \<open>root\<close>, and \<open>files\<close>. \<open>os.walk\<close> is top-down; it does not descend when the loop body has
  emptied \<open>dirs\<close> (line 94).
\<close>

record walk_item =
  item_root :: string
  item_rel :: "string list"
  item_files :: "string list"

fun walk :: "bool \<Rightarrow> string \<Rightarrow> string list \<Rightarrow> folder \<Rightarrow> walk_item list" where
  "walk recursive root rel (Folder nm files subs) =
     \<lparr>item_root = root, item_rel = rel, item_files = files\<rparr> #
     (if recursive
      then concat (map (\<lambda>sub. walk recursive (path_join root (folder_name sub))
                                (rel @ [folder_name sub]) sub) subs)
      else [])"

text \<open>
  \<open>os.path.relpath(root, path)\<close> for a \<open>root\<close> produced by \<open>os.walk(path)\<close>: the names on
  the way down joined by the separator, and \<open>"."\<close> for \<open>path\<close> itself.
\<close>

definition relpath :: "string list \<Rightarrow> string" where
  "relpath rel = (if rel = [] then ''.'' else join [os_sep] rel)"

text \<open>The calls made to the host, in order, and the counters of the run.\<close>

datatype event =
    DeckId string
  | ProgressStart nat
  | AddFile string
  | AddNote Note bool
  | ProgressUpdate nat
  | ProgressFinish
  | Tooltip nat
  | DeckBrowserRefresh
  | FailureDialog
  | CompletionDialog nat

record run_state =
  events :: "event list"
  newCount :: nat
  failure :: bool

text \<open>How a loop body ends: normally, with \<open>break\<close>, or with an exception.\<close>

datatype signal = Next | Break | Raise py_error

text \<open>Lines 79-83.\<close>

definition file_pairs_used :: "(string \<times> string \<times> bool) list \<Rightarrow> bool" where
  "file_pairs_used fieldList =
     list_ex (\<lambda>(field, action, special). action = action_value Actions_media_2) fieldList"

text \<open>
  Lines 160-234: the body of the loop over the files of one folder. \<open>pairs\<close> is
  \<open>file_pair_index\<close> when secondary files are used and \<open>None\<close> otherwise.
\<close>

definition import_file ::
  "host \<Rightarrow> (string \<times> string) list option \<Rightarrow> string list \<Rightarrow> (string \<times> string \<times> bool) list \<Rightarrow>
   string \<Rightarrow> string \<Rightarrow> nat \<times> string \<Rightarrow> run_state \<Rightarrow> signal \<times> run_state" where
  "import_file h pairs model fieldList root relative_path item st =
     (let i = fst item; fileName = snd item;
          filePath = path_join root fileName
      in if \<not> is_media (AUDIO h @ IMAGE h) fileName then (Next, st)
         else
           let internalFileName = add_file h filePath;
               st1 = st\<lparr>events := events st @ [AddFile filePath]\<rparr>
           in case (case pairs of
                      None \<Rightarrow> Inr ([], st1)
                    | Some pair_index \<Rightarrow>
                        (case map_of pair_index fileName of
                           None \<Rightarrow> Inl KeyError
                         | Some secondName \<Rightarrow>
                             (let filePath_2 = path_join root secondName
                              in Inr (add_file h filePath_2,
                                      st1\<lparr>events := events st1 @ [AddFile filePath_2]\<rparr>)))) of
                Inl e \<Rightarrow> (Raise e, st1)
              | Inr (internalFileName_2, st2) \<Rightarrow>
                  (case populate_fields h relative_path fileName i internalFileName
                          internalFileName_2 fieldList (new_note model) of
                     Inl e \<Rightarrow> (Raise e, st2)
                   | Inr n \<Rightarrow>
                       if \<not> addNote h n
                       then (Break, st2\<lparr>events := events st2 @ [AddNote n False],
                                       failure := True\<rparr>)
                       else (Next, st2\<lparr>events := events st2 @
                                         [AddNote n True, ProgressUpdate (newCount st2 + 1)],
                                       newCount := newCount st2 + 1\<rparr>)))"

text \<open>Line 159: \<open>for i, fileName in enumerate(files)\<close>.\<close>

fun import_files ::
  "host \<Rightarrow> (string \<times> string) list option \<Rightarrow> string list \<Rightarrow> (string \<times> string \<times> bool) list \<Rightarrow>
   string \<Rightarrow> string \<Rightarrow> (nat \<times> string) list \<Rightarrow> run_state \<Rightarrow> signal \<times> run_state" where
  "import_files h pairs model fieldList root relative_path [] st = (Next, st)"
| "import_files h pairs model fieldList root relative_path (item # items) st =
     (case import_file h pairs model fieldList root relative_path item st of
        (Next, st') \<Rightarrow> import_files h pairs model fieldList root relative_path items st'
      | (sig, st') \<Rightarrow> (sig, st'))"

text \<open>
  Lines 112-157 with the suffix as read from the settings: \<open>re.escape\<close> raises \<open>TypeError\<close>
  for a value that is not a string, at the first media file of the folder.
\<close>

definition index_with :: "string list \<Rightarrow> jvalue \<Rightarrow> string list \<Rightarrow> py_error + (string \<times> string) list" where
  "index_with exts file_pair_suffix files =
     (case file_pair_suffix of
        JStr suffix \<Rightarrow>
          (case index_folder exts suffix files of
             Inl e \<Rightarrow> Inl e
           | Inr ix \<Rightarrow> Inr (file_pair_index ix))
      | _ \<Rightarrow> if list_ex (is_media exts) files then Inl TypeError else Inr [])"

text \<open>Lines 92-234: the body of the loop over the folders.\<close>

definition process_folder ::
  "host \<Rightarrow> settings \<Rightarrow> string list \<Rightarrow> (string \<times> string \<times> bool) list \<Rightarrow> walk_item \<Rightarrow>
   run_state \<Rightarrow> signal \<times> run_state" where
  "process_folder h settings model fieldList item st =
     (case settings ''secondImageSuffix'' of
        None \<Rightarrow> (Raise KeyError, st)
      | Some file_pair_suffix \<Rightarrow>
          if file_pairs_used fieldList then
            (case index_with (AUDIO h @ IMAGE h) file_pair_suffix (item_files item) of
               Inl e \<Rightarrow> (Raise e, st)
             | Inr pair_index \<Rightarrow>
                 import_files h (Some pair_index) model fieldList (item_root item)
                   (relpath (item_rel item)) (enumerate 0 (map fst pair_index)) st)
          else
            import_files h None model fieldList (item_root item)
              (relpath (item_rel item)) (enumerate 0 (item_files item)) st)"

text \<open>Lines 91-236: the loop over \<open>os.walk(path)\<close>; \<open>if failure: break\<close>.\<close>

fun process_folders ::
  "host \<Rightarrow> settings \<Rightarrow> string list \<Rightarrow> (string \<times> string \<times> bool) list \<Rightarrow> walk_item list \<Rightarrow>
   run_state \<Rightarrow> signal \<times> run_state" where
  "process_folders h settings model fieldList [] st = (Next, st)"
| "process_folders h settings model fieldList (item # items) st =
     (case process_folder h settings model fieldList item st of
        (Next, st') \<Rightarrow> process_folders h settings model fieldList items st'
      | (sig, st') \<Rightarrow> (sig, st'))"

text \<open>
  How the call of \<open>doMediaImport\<close> ends: it returns, or an exception leaves it. The final
  state holds the calls made to the host up to that point.
\<close>

datatype outcome = Returned | Raised py_error

text \<open>Line 88: the number of files below \<open>path\<close>, whatever \<open>recursive\<close> is.\<close>

definition fileCount :: "string \<Rightarrow> folder \<Rightarrow> nat" where
  "fileCount path tree = sum_list (map (\<lambda>item. length (item_files item)) (walk True path [] tree))"

text \<open>Lines 75-245: the import proper, after the dialog was accepted.\<close>

definition run_import ::
  "host \<Rightarrow> settings \<Rightarrow> string \<Rightarrow> bool \<Rightarrow> string list \<Rightarrow> (string \<times> string \<times> bool) list \<Rightarrow>
   folder \<Rightarrow> outcome \<times> run_state" where
  "run_import h settings path recursive model fieldList tree =
     (let st0 = \<lparr>events = [DeckId ''MediaImport'', ProgressStart (fileCount path tree)],
                 newCount = 0, failure = False\<rparr>
      in case process_folders h settings model fieldList (walk recursive path [] tree) st0 of
           (Raise e, st) \<Rightarrow> (Raised e, st)
         | (sig, st) \<Rightarrow>
             (Returned,
              st\<lparr>events := events st @
                   [ProgressFinish, Tooltip (newCount st), DeckBrowserRefresh,
                    if failure st then FailureDialog else CompletionDialog (newCount st)]\<rparr>))"

text \<open>
  The result of \<open>ImportSettingsDialog().getDialogResult()\<close>, and what the dialog assigned to
  the settings while it was open: it assigns only the keys \<open>loadFolder\<close> (lines 255, 461),
  \<open>fieldSettings\<close> (line 460) and \<open>includeSubfolders\<close> (line 462).
\<close>

record dialog_result =
  dlg_path :: string
  dlg_recursive :: bool
  dlg_model :: "string list"
  dlg_fieldList :: "(string \<times> string \<times> bool) list"
  dlg_ok :: bool
  dlg_assigned :: settings

definition dialog_keys :: "string list" where
  "dialog_keys = [''loadFolder'', ''fieldSettings'', ''includeSubfolders'']"

text \<open>Lines 67-245. \<open>settings\<close> is the global dictionary as the call finds it.\<close>

definition doMediaImport ::
  "host \<Rightarrow> string \<Rightarrow> disk \<Rightarrow> settings \<Rightarrow> dialog_result \<Rightarrow> folder \<Rightarrow> outcome \<times> run_state" where
  "doMediaImport h home d settings dlg tree =
     (let settings1 = initializeSettings home d settings;
          settings2 = settings1 ++ (dlg_assigned dlg |` set dialog_keys)
      in if \<not> dlg_ok dlg then (Returned, \<lparr>events = [], newCount = 0, failure = False\<rparr>)
         else run_import h settings2 (dlg_path dlg) (dlg_recursive dlg) (dlg_model dlg)
                (dlg_fieldList dlg) tree)"


section \<open>Reading the calls made to the host\<close>

text \<open>
  A successful record creation, a failed one, and the projection of the calls onto record
  creations and progress reports.
\<close>

fun is_created :: "event \<Rightarrow> bool" where
  "is_created (AddNote n ok) = ok"
| "is_created e = False"

fun is_failed :: "event \<Rightarrow> bool" where
  "is_failed (AddNote n ok) = (\<not> ok)"
| "is_failed e = False"

datatype mark = Created | Tick nat

fun marks :: "event list \<Rightarrow> mark list" where
  "marks [] = []"
| "marks (AddNote n ok # es) = (if ok then Created # marks es else marks es)"
| "marks (ProgressUpdate k # es) = Tick k # marks es"
| "marks (e # es) = marks es"

text \<open>\<open>c\<close> records created, each followed by the report of the running count.\<close>

definition ladder :: "nat \<Rightarrow> mark list" where
  "ladder c = concat (map (\<lambda>k. [Created, Tick k]) [1..<Suc c])"

text \<open>
  The state of a run in which no creation has failed, and of a run that has just met its
  first failed creation.
\<close>

definition clean_trace :: "event list \<Rightarrow> nat \<Rightarrow> bool" where
  "clean_trace evs c = (\<not> list_ex is_failed evs \<and> marks evs = ladder c)"

definition good :: "run_state \<Rightarrow> bool" where
  "good st = (\<not> failure st \<and> clean_trace (events st) (newCount st))"

definition aborted :: "run_state \<Rightarrow> bool" where
  "aborted st =
     (failure st \<and>
      (\<exists>pre n. events st = pre @ [AddNote n False] \<and> clean_trace pre (newCount st)))"

text \<open>What holds of the state after a loop body or a loop that started in a good state.\<close>

definition after :: "signal \<Rightarrow> run_state \<Rightarrow> bool" where
  "after sig st = (case sig of Next \<Rightarrow> good st | Break \<Rightarrow> aborted st | Raise e \<Rightarrow> good st)"

section \<open>Example inputs\<close>

text \<open>
  A host that accepts every record and stores a file under its path, one that rejects a
  record whose field \<open>Front\<close> is \<open>bad\<close>, settings that define the suffix read at
  line 97, and the folder tree \<open>root/a/img1.jpg, root/a/img1_2.png, root/b/clip.mp3\<close>
  with its subfolders listed in the order \<open>a\<close>, \<open>b\<close>.
\<close>

definition example_host :: host where
  "example_host =
     \<lparr>AUDIO = [''mp3'', ''wav''], IMAGE = [''jpg'', ''png''],
      add_file = (\<lambda>filePath. filePath), addNote = (\<lambda>n. True)\<rparr>"

definition picky_host :: host where
  "picky_host =
     \<lparr>AUDIO = [''mp3'', ''wav''], IMAGE = [''jpg'', ''png''],
      add_file = (\<lambda>filePath. filePath),
      addNote = (\<lambda>n. map_of (note_fields n) ''Front'' \<noteq> Some ''bad'')\<rparr>"

definition example_settings :: settings where
  "example_settings = [''secondImageSuffix'' \<mapsto> JStr ''_2'']"

definition scenario_tree :: folder where
  "scenario_tree =
     Folder ''root'' []
       [Folder ''a'' [''img1.jpg'', ''img1_2.png''] [], Folder ''b'' [''clip.mp3''] []]"

text \<open>
  Settings edited away from every default, and the persisted state in which the transient
  settings file defines \<open>secondImageSuffix\<close> while the add-on configuration of the host
  does not.
\<close>

definition edited_settings :: settings where
  "edited_settings =
     [''loadFolder'' \<mapsto> JStr ''/media/cards'', ''includeSubfolders'' \<mapsto> JBool False,
      ''fieldSettings'' \<mapsto>
         JDict [(''Basic'', JDict [(''Front'', JStr ''Media''), (''Back'', JStr ''File Name'')])],
      ''secondMediaSuffix'' \<mapsto> JStr ''_b'', ''showExtensionActions'' \<mapsto> JBool True]"

definition moved_suffix_disk :: disk where
  "moved_suffix_disk =
     \<lparr>transient_file = Some [''secondImageSuffix'' \<mapsto> JStr ''_2''], addon_config = Map.empty\<rparr>"

section \<open>Properties of the suffix test\<close>



lemma suffix_match_here_iff:
  "suffix_match_here suffix s \<longleftrightarrow>
     (\<exists>c post. s = c # suffix @ post \<and> c \<noteq> newline \<and> (post = [] \<or> hd post = newline))"
proof (cases s)
  case Nil
  then show ?thesis by (simp add: suffix_match_here_def)
next
  case (Cons c rest)
  have "take (length suffix) rest = suffix \<longleftrightarrow> (\<exists>post. rest = suffix @ post)"
    by (metis append_eq_conv_conj append_take_drop_id)
  moreover have "\<And>post. rest = suffix @ post \<Longrightarrow> drop (length suffix) rest = post"
    by simp
  ultimately show ?thesis
    using Cons by (auto simp: suffix_match_here_def split: list.splits)
qed

lemma suffix_regex_search_iff:
  "suffix_regex_search suffix s \<longleftrightarrow>
     (\<exists>pre c post. s = pre @ c # suffix @ post \<and> c \<noteq> newline \<and>
        (post = [] \<or> hd post = newline))"
proof (induction s)
  case Nil
  then show ?case by simp
next
  case (Cons a s)
  show ?case (is "?L \<longleftrightarrow> ?R")
  proof
    assume ?L
    then consider "suffix_match_here suffix (a # s)" | "suffix_regex_search suffix s" by auto
    then show ?R
    proof cases
      case 1
      then obtain c post where "a # s = [] @ c # suffix @ post" "c \<noteq> newline" "post = [] \<or> hd post = newline"
        unfolding suffix_match_here_iff by auto
      then show ?thesis by blast
    next
      case 2
      then obtain pre c post where "s = pre @ c # suffix @ post" "c \<noteq> newline" "post = [] \<or> hd post = newline"
        using Cons.IH by auto
      then have "a # s = (a # pre) @ c # suffix @ post" by simp
      then show ?thesis using \<open>c \<noteq> newline\<close> \<open>post = [] \<or> hd post = newline\<close> by blast
    qed
  next
    assume ?R
    then obtain pre c post where *: "a # s = pre @ c # suffix @ post" "c \<noteq> newline" "post = [] \<or> hd post = newline"
      by auto
    show ?L
    proof (cases pre)
      case Nil
      then have "suffix_match_here suffix (a # s)"
        unfolding suffix_match_here_iff using * by auto
      then show ?thesis by simp
    next
      case (Cons b pre')
      then have "s = pre' @ c # suffix @ post" using * by simp
      then have "suffix_regex_search suffix s" using Cons.IH * by blast
      then show ?thesis by simp
    qed
  qed
qed

lemma suffix_regex_search_no_newline:
  assumes "newline \<notin> set s"
  shows "suffix_regex_search suffix s \<longleftrightarrow> (\<exists>pre c. s = pre @ c # suffix)"
proof
  assume "suffix_regex_search suffix s"
  then obtain pre c post where *: "s = pre @ c # suffix @ post" "post = [] \<or> hd post = newline"
    unfolding suffix_regex_search_iff by auto
  have "post = []"
  proof (rule ccontr)
    assume "post \<noteq> []"
    then have "hd post = newline" using * by simp
    moreover have "hd post \<in> set post" using \<open>post \<noteq> []\<close> by (rule hd_in_set)
    ultimately show False using assms *(1) by auto
  qed
  then show "\<exists>pre c. s = pre @ c # suffix" using * by auto
next
  assume "\<exists>pre c. s = pre @ c # suffix"
  then obtain pre c where *: "s = pre @ c # suffix @ []" by auto
  then have "c \<noteq> newline" using assms by auto
  then show "suffix_regex_search suffix s"
    unfolding suffix_regex_search_iff using * by blast
qed

lemma index_files_secondary:
  "set (secondary_media (index_files exts suffix files ix)) =
     set (secondary_media ix) \<union>
     {media_name f | f. f \<in> set files \<and> is_media exts f \<and> suffix_regex_search suffix (media_name f)}"
  by (induction files arbitrary: ix) (auto simp: Let_def)

lemma index_files_primary:
  "set (primary_media (index_files exts suffix files ix)) =
     set (primary_media ix) \<union>
     {media_name f | f. f \<in> set files \<and> is_media exts f \<and> \<not> suffix_regex_search suffix (media_name f)}"
  by (induction files arbitrary: ix) (auto simp: Let_def)





text \<open>
  C8 (as amended). During the indexing of a folder, a classified base name without line
  breaks is a candidate secondary exactly when it ends with the suffix and has at least one
  character before it, and a trivial primary otherwise; a base name equal to the suffix is a
  trivial primary.
\<close>

theorem partition_by_suffix:
  assumes "f \<in> set files" and "is_media exts f" and "newline \<notin> set (media_name f)"
  shows "(media_name f \<in> set (secondary_media (index_files exts suffix files empty_index))
            \<longleftrightarrow> (\<exists>pre c. media_name f = pre @ c # suffix)) \<and>
         (media_name f \<in> set (primary_media (index_files exts suffix files empty_index))
            \<longleftrightarrow> \<not> (\<exists>pre c. media_name f = pre @ c # suffix)) \<and>
         (media_name f = suffix \<longrightarrow>
            media_name f \<in> set (primary_media (index_files exts suffix files empty_index)))"
proof -
  let ?m = "media_name f"
  have r: "suffix_regex_search suffix ?m \<longleftrightarrow> (\<exists>pre c. ?m = pre @ c # suffix)"
    using assms(3) by (rule suffix_regex_search_no_newline)
  have s: "?m \<in> set (secondary_media (index_files exts suffix files empty_index))
             \<longleftrightarrow> suffix_regex_search suffix ?m"
    unfolding index_files_secondary using assms(1,2) by (auto simp: empty_index_def)
  have p: "?m \<in> set (primary_media (index_files exts suffix files empty_index))
             \<longleftrightarrow> \<not> suffix_regex_search suffix ?m"
    unfolding index_files_primary using assms(1,2) by (auto simp: empty_index_def)
  have "\<not> (\<exists>pre c. ?m = pre @ c # suffix)" if "?m = suffix"
  proof
    assume "\<exists>pre c. ?m = pre @ c # suffix"
    then obtain pre c where "?m = pre @ c # suffix" by blast
    then have "length ?m = length pre + 1 + length suffix" by simp
    then show False using that by simp
  qed
  then show ?thesis using r s p by blast
qed

theorem partition_by_suffix_witness:
  "''a_2'' \<in> set (secondary_media (index_files [''jpg''] ''_2'' [''a.jpg'', ''a_2.jpg''] empty_index)) \<and>
   ''a_2'' \<notin> set (primary_media (index_files [''jpg''] ''_2'' [''a.jpg'', ''a_2.jpg''] empty_index))"
proof -
  have m: "media_name ''a_2.jpg'' = ''a_2''"
    by (simp add: media_name_def splitext_def os_sep_def extsep_def)
  have h1: "''a_2.jpg'' \<in> set [''a.jpg'', ''a_2.jpg'']" by simp
  have h2: "is_media [''jpg''] ''a_2.jpg''"
    by (simp add: is_media_def file_ext_def splitext_def os_sep_def extsep_def lower_def
          lower_char_def)
  have h3: "newline \<notin> set (media_name ''a_2.jpg'')"
    by (simp add: m newline_def)
  have e: "\<exists>pre c. media_name ''a_2.jpg'' = pre @ c # ''_2''"
    unfolding m by (rule exI[of _ "[]"], rule exI[of _ "CHR ''a''"]) simp
  from partition_by_suffix[OF h1 h2 h3, of "''_2''"] e show ?thesis
    unfolding m by blast
qed

theorem partition_by_suffix_counterexample:
  "media_name ''_2.jpg'' = ''_2'' \<and> is_media [''jpg''] ''_2.jpg'' \<and>
   ''_2'' \<notin> set (secondary_media (index_files [''jpg''] ''_2'' [''_2.jpg''] empty_index)) \<and>
   ''_2'' \<in> set (primary_media (index_files [''jpg''] ''_2'' [''_2.jpg''] empty_index))"
  by (simp add: empty_index_def is_media_def file_ext_def media_name_def splitext_def
        os_sep_def extsep_def lower_def lower_char_def suffix_match_here_def newline_def Let_def)

section \<open>Properties of the pairing\<close>

lemma set_update_subset: "set (AList.update k v al) \<subseteq> insert (k, v) (set al)"
  by (induction al) auto

lemma names_agree_upd: "names_agree fei \<Longrightarrow> names_agree (fei(media_name f \<mapsto> f))"
  by (simp add: names_agree_def)

lemma index_files_names_agree:
  "names_agree (file_ending_index ix) \<Longrightarrow>
   names_agree (file_ending_index (index_files exts suffix files ix))"
proof (induction files arbitrary: ix)
  case Nil
  then show ?case by simp
next
  case (Cons f files)
  show ?case
  proof (cases "is_media exts f")
    case False
    then show ?thesis using Cons by simp
  next
    case True
    then show ?thesis
      using Cons.prems by (auto simp: Let_def intro!: Cons.IH) (simp_all add: names_agree_def)
  qed
qed

lemma index_files_pairs:
  "file_pair_index (index_files exts suffix files ix) = file_pair_index ix"
  by (induction files arbitrary: ix) (auto simp: Let_def)

lemma match_primaries_fields:
  "match_primaries suffix pfs ix = Inr ix' \<Longrightarrow>
   file_ending_index ix' = file_ending_index ix \<and> primary_media ix' = primary_media ix \<and>
   secondary_media ix' = secondary_media ix"
  by (induction pfs arbitrary: ix) (auto split: option.splits)

lemma match_secondaries_fields:
  "match_secondaries suffix pfs ix = Inr ix' \<Longrightarrow>
   file_ending_index ix' = file_ending_index ix \<and> primary_media ix' = primary_media ix \<and>
   secondary_media ix' = secondary_media ix"
  by (induction pfs arbitrary: ix) (auto split: option.splits if_splits)

lemma match_primaries_distinct:
  "match_primaries suffix pfs ix = Inr ix' \<Longrightarrow> distinct (map fst (file_pair_index ix)) \<Longrightarrow>
   distinct (map fst (file_pair_index ix'))"
  by (induction pfs arbitrary: ix) (auto split: option.splits simp: distinct_update)

lemma match_secondaries_distinct:
  "match_secondaries suffix pfs ix = Inr ix' \<Longrightarrow> distinct (map fst (file_pair_index ix)) \<Longrightarrow>
   distinct (map fst (file_pair_index ix'))"
  by (induction pfs arbitrary: ix) (auto split: option.splits if_splits simp: distinct_update)


lemma match_primaries_pairs:
  "match_primaries suffix pfs ix = Inr ix' \<Longrightarrow> (p, s) \<in> set (file_pair_index ix') \<Longrightarrow>
   (p, s) \<in> set (file_pair_index ix) \<or>
   (\<exists>pf \<in> set pfs. file_ending_index ix pf = Some p \<and> file_ending_index ix (pf @ suffix) = Some s)"
proof (induction pfs arbitrary: ix)
  case Nil
  then show ?case by simp
next
  case (Cons pf pfs)
  from Cons.prems(1) obtain a b where
    a: "file_ending_index ix pf = Some a" and b: "file_ending_index ix (pf @ suffix) = Some b"
    by (auto split: option.splits)
  let ?ix2 = "ix\<lparr>file_pair_index := AList.update a b (file_pair_index ix),
                 secondary_media_matched := (secondary_media_matched ix)(pf @ suffix \<mapsto> True)\<rparr>"
  have run: "match_primaries suffix pfs ?ix2 = Inr ix'"
    using Cons.prems(1) a b by simp
  from Cons.IH[OF run Cons.prems(2)] show ?case
  proof
    assume "(p, s) \<in> set (file_pair_index ?ix2)"
    then have "(p, s) \<in> insert (a, b) (set (file_pair_index ix))"
      using set_update_subset by fastforce
    then show ?thesis using a b by auto
  next
    assume "\<exists>pf\<in>set pfs. file_ending_index ?ix2 pf = Some p \<and>
              file_ending_index ?ix2 (pf @ suffix) = Some s"
    then show ?thesis by auto
  qed
qed

lemma match_secondaries_pairs:
  "match_secondaries suffix pfs ix = Inr ix' \<Longrightarrow> (p, s) \<in> set (file_pair_index ix') \<Longrightarrow>
   (p, s) \<in> set (file_pair_index ix) \<or>
   (\<exists>pf \<in> set pfs. secondary_media_matched ix pf = None \<and>
      file_ending_index ix pf = Some p \<and> file_ending_index ix (pf @ suffix) = Some s)"
proof (induction pfs arbitrary: ix)
  case Nil
  then show ?case by simp
next
  case (Cons pf pfs)
  show ?case
  proof (cases "secondary_media_matched ix pf = None")
    case False
    then have "match_secondaries suffix pfs ix = Inr ix'" using Cons.prems(1) by simp
    from Cons.IH[OF this Cons.prems(2)] show ?thesis by auto
  next
    case True
    from Cons.prems(1) True obtain a b where
      a: "file_ending_index ix pf = Some a" and b: "file_ending_index ix (pf @ suffix) = Some b"
      by (auto split: option.splits)
    let ?ix2 = "ix\<lparr>file_pair_index := AList.update a b (file_pair_index ix),
                   secondary_media_matched := (secondary_media_matched ix)(pf @ suffix \<mapsto> True)\<rparr>"
    have run: "match_secondaries suffix pfs ?ix2 = Inr ix'"
      using Cons.prems(1) a b True by simp
    from Cons.IH[OF run Cons.prems(2)] show ?thesis
    proof
      assume "(p, s) \<in> set (file_pair_index ?ix2)"
      then have "(p, s) \<in> insert (a, b) (set (file_pair_index ix))"
        using set_update_subset by fastforce
      then show ?thesis using a b True by auto
    next
      assume "\<exists>q\<in>set pfs. secondary_media_matched ?ix2 q = None \<and>
                file_ending_index ?ix2 q = Some p \<and> file_ending_index ?ix2 (q @ suffix) = Some s"
      then obtain q where q: "q \<in> set pfs" "secondary_media_matched ?ix2 q = None"
        "file_ending_index ix q = Some p" "file_ending_index ix (q @ suffix) = Some s"
        by auto
      from q(2) have "secondary_media_matched ix q = None"
        by (auto split: if_splits)
      then show ?thesis using q by auto
    qed
  qed
qed

lemma distinct_snd_if:
  assumes "distinct (map fst xs)"
      and "\<And>p s p'. (p, s) \<in> set xs \<Longrightarrow> (p', s) \<in> set xs \<Longrightarrow> p = p'"
  shows "distinct (map snd xs)"
proof -
  have "distinct xs" using assms(1) by (simp add: distinct_map)
  moreover have "inj_on snd (set xs)"
    using assms(2) by (auto simp: inj_on_def)
  ultimately show ?thesis by (simp add: distinct_map)
qed


lemma index_folder_origin:
  assumes "index_folder exts suffix files = Inr ix"
  obtains ix1 where "first_pass exts suffix files = Inr ix1"
    and "names_agree (file_ending_index ix1)"
    and "distinct (map fst (file_pair_index ix))"
    and "\<And>p s. (p, s) \<in> set (file_pair_index ix) \<Longrightarrow>
           \<exists>pf. file_ending_index ix1 pf = Some p \<and> file_ending_index ix1 (pf @ suffix) = Some s \<and>
             (pf \<in> set (primary_media ix1) \<or>
              pf \<in> set (secondary_media ix1) \<and> secondary_media_matched ix1 pf = None)"
proof -
  define ix0 where "ix0 = index_files exts suffix files empty_index"
  from assms obtain ix1 where fp: "first_pass exts suffix files = Inr ix1"
    by (auto simp: index_folder_def split: sum.splits)
  then have p1: "match_primaries suffix (primary_media ix0) ix0 = Inr ix1"
    by (simp add: first_pass_def ix0_def Let_def)
  define srt where "srt = sort_key length (secondary_media ix1)"
  have p2: "match_secondaries suffix srt (ix1\<lparr>secondary_media := srt\<rparr>) = Inr ix"
    using assms fp by (simp add: index_folder_def srt_def Let_def)
  have f1: "file_ending_index ix1 = file_ending_index ix0" "primary_media ix1 = primary_media ix0"
    using match_primaries_fields[OF p1] by simp_all
  have "names_agree (file_ending_index ix0)"
    unfolding ix0_def by (rule index_files_names_agree) (simp add: empty_index_def names_agree_def)
  then have na: "names_agree (file_ending_index ix1)" using f1 by simp
  have "distinct (map fst (file_pair_index ix0))"
    by (simp add: ix0_def empty_index_def index_files_pairs)
  then have "distinct (map fst (file_pair_index ix1))"
    by (rule match_primaries_distinct[OF p1])
  then have d: "distinct (map fst (file_pair_index ix))"
    using match_secondaries_distinct[OF p2] by simp
  have org: "\<exists>pf. file_ending_index ix1 pf = Some p \<and> file_ending_index ix1 (pf @ suffix) = Some s \<and>
             (pf \<in> set (primary_media ix1) \<or>
              pf \<in> set (secondary_media ix1) \<and> secondary_media_matched ix1 pf = None)"
    if "(p, s) \<in> set (file_pair_index ix)" for p s
  proof -
    from match_secondaries_pairs[OF p2 that]
    consider "(p, s) \<in> set (file_pair_index ix1)"
      | pf where "pf \<in> set srt" "secondary_media_matched ix1 pf = None"
          "file_ending_index ix1 pf = Some p" "file_ending_index ix1 (pf @ suffix) = Some s"
      by auto
    then show ?thesis
    proof cases
      case 1
      from match_primaries_pairs[OF p1 1] obtain pf where
        "pf \<in> set (primary_media ix0)" "file_ending_index ix0 pf = Some p"
        "file_ending_index ix0 (pf @ suffix) = Some s"
        by (auto simp: ix0_def empty_index_def index_files_pairs)
      then show ?thesis using f1 by auto
    next
      case 2
      then have "pf \<in> set (secondary_media ix1)" by (simp add: srt_def)
      then show ?thesis using 2 by auto
    qed
  qed
  show thesis using that[OF fp na d] org by blast
qed

text \<open>
  C2. When the indexing of a folder succeeds, the base name of the primary of every emitted
  pair is a trivial primary, or a candidate secondary that the first pass did not consume;
  no primary has two secondaries, and no file name is the secondary of two pairs.
\<close>

theorem pairing_invariant:
  assumes "index_folder exts suffix files = Inr ix"
  shows "\<exists>ix1. first_pass exts suffix files = Inr ix1 \<and>
     (\<forall>(p, s) \<in> set (file_pair_index ix).
        media_name p \<in> set (primary_media ix1) \<or>
        media_name p \<in> set (secondary_media ix1) \<and>
          secondary_media_matched ix1 (media_name p) = None) \<and>
     distinct (map fst (file_pair_index ix)) \<and>
     distinct (map snd (file_pair_index ix))"
proof -
  from index_folder_origin[OF assms] obtain ix1 where
    fp: "first_pass exts suffix files = Inr ix1"
    and na: "names_agree (file_ending_index ix1)"
    and d: "distinct (map fst (file_pair_index ix))"
    and org: "\<And>p s. (p, s) \<in> set (file_pair_index ix) \<Longrightarrow>
           \<exists>pf. file_ending_index ix1 pf = Some p \<and> file_ending_index ix1 (pf @ suffix) = Some s \<and>
             (pf \<in> set (primary_media ix1) \<or>
              pf \<in> set (secondary_media ix1) \<and> secondary_media_matched ix1 pf = None)"
    by blast
  have a: "media_name p \<in> set (primary_media ix1) \<or>
        media_name p \<in> set (secondary_media ix1) \<and>
          secondary_media_matched ix1 (media_name p) = None"
    if "(p, s) \<in> set (file_pair_index ix)" for p s
  proof -
    from org[OF that] obtain pf where pf: "file_ending_index ix1 pf = Some p"
      "pf \<in> set (primary_media ix1) \<or>
       pf \<in> set (secondary_media ix1) \<and> secondary_media_matched ix1 pf = None"
      by blast
    from na pf(1) have "media_name p = pf" unfolding names_agree_def by blast
    then show ?thesis using pf(2) by simp
  qed
  have inj: "p = p'" if "(p, s) \<in> set (file_pair_index ix)" "(p', s) \<in> set (file_pair_index ix)"
    for p p' s
  proof -
    from org[OF that(1)] obtain pf where pf:
      "file_ending_index ix1 pf = Some p" "file_ending_index ix1 (pf @ suffix) = Some s" by blast
    from org[OF that(2)] obtain pf' where pf':
      "file_ending_index ix1 pf' = Some p'" "file_ending_index ix1 (pf' @ suffix) = Some s" by blast
    from na pf(2) have "media_name s = pf @ suffix"
      unfolding names_agree_def by blast
    moreover from na pf'(2) have "media_name s = pf' @ suffix"
      unfolding names_agree_def by blast
    ultimately have "pf @ suffix = pf' @ suffix" by simp
    then have "pf = pf'" by simp
    then show ?thesis using pf(1) pf'(1) by simp
  qed
  have "distinct (map snd (file_pair_index ix))"
    using d inj by (rule distinct_snd_if)
  then show ?thesis using fp a d by auto
qed

theorem pairing_invariant_witness:
  "\<exists>ix. index_folder [''jpg'', ''png''] ''_2''
          [''b_2_2.png'', ''a.jpg'', ''b_2.jpg'', ''a_2.png''] = Inr ix \<and>
        file_pair_index ix = [(''a.jpg'', ''a_2.png''), (''b_2.jpg'', ''b_2_2.png'')] \<and>
        (\<exists>ix1. first_pass [''jpg'', ''png''] ''_2''
                 [''b_2_2.png'', ''a.jpg'', ''b_2.jpg'', ''a_2.png''] = Inr ix1 \<and>
           (\<forall>(p, s) \<in> set (file_pair_index ix).
              media_name p \<in> set (primary_media ix1) \<or>
              media_name p \<in> set (secondary_media ix1) \<and>
                secondary_media_matched ix1 (media_name p) = None) \<and>
           distinct (map fst (file_pair_index ix)) \<and>
           distinct (map snd (file_pair_index ix)))"
proof -
  obtain ix where ix: "index_folder [''jpg'', ''png''] ''_2''
          [''b_2_2.png'', ''a.jpg'', ''b_2.jpg'', ''a_2.png''] = Inr ix"
     and fpi: "file_pair_index ix = [(''a.jpg'', ''a_2.png''), (''b_2.jpg'', ''b_2_2.png'')]"
    by (simp add: index_folder_def first_pass_def empty_index_def is_media_def file_ext_def
          media_name_def splitext_def os_sep_def extsep_def lower_def lower_char_def
          suffix_match_here_def newline_def Let_def)
  from pairing_invariant[OF ix] ix fpi show ?thesis by blast
qed

section \<open>Properties of the field values\<close>

text \<open>
  C3 (the code at the file \<open>Image.JPG\<close>). \<open>Extension\<close> gives \<open>jpg\<close>. The case-sensitive
  extension is computed by line 201 from \<open>mediaName\<close>, the name already stripped of its
  extension, so it gives the empty string and not \<open>JPG\<close>, against the tooltip of the action
  (\<open>"image.JPG" -> "JPG"\<close>).
\<close>

theorem extension_exact_of_Image_JPG:
  "field_data h rel ''Image.JPG'' i f1 f2 (action_value Actions_extension) = Some (DStr ''jpg'') \<and>
   field_data h rel ''Image.JPG'' i f1 f2 (action_value Actions_extension_case_sensitive) =
     Some (DStr [])"
proof -
  have l: "lower ''JPG'' = ''jpg''" by code_simp
  show ?thesis
    by (simp add: field_data_def file_ext_def media_name_def splitext_def os_sep_def
          extsep_def l Let_def)
qed

text \<open>
  C7 (the code on the \<open>Tags\<close> target). For the folder \<open>f1/f2/f3\<close> the hierarchical action
  appends the tag \<open>f1::f2::f3\<close> and the individual action the tags \<open>f1\<close>, \<open>f2\<close>, \<open>f3\<close>.
  For a file of the import root the individual action appends nothing, and the hierarchical
  action appends one tag, the empty string: \<open>"::".join([])\<close> is wrapped into a list by
  line 220.
\<close>

theorem folder_tags_on_Tags:
  "populate_fields h (relpath [''f1'', ''f2'', ''f3'']) fileName i f1 f2
       [(''Tags'', action_value Actions_folder_tags_hierarchical, True)] (new_note model)
     = Inr ((new_note model)\<lparr>note_tags := [''f1::f2::f3'']\<rparr>) \<and>
   populate_fields h (relpath [''f1'', ''f2'', ''f3'']) fileName i f1 f2
       [(''Tags'', action_value Actions_folder_tags_individual, True)] (new_note model)
     = Inr ((new_note model)\<lparr>note_tags := [''f1'', ''f2'', ''f3'']\<rparr>) \<and>
   populate_fields h (relpath []) fileName i f1 f2
       [(''Tags'', action_value Actions_folder_tags_individual, True)] (new_note model)
     = Inr (new_note model) \<and>
   populate_fields h (relpath []) fileName i f1 f2
       [(''Tags'', action_value Actions_folder_tags_hierarchical, True)] (new_note model)
     = Inr ((new_note model)\<lparr>note_tags := [[]]\<rparr>)"
  by (simp add: field_data_def store_data_def folder_tags_def relpath_def os_sep_def
        new_note_def replace_space_def Let_def)

section \<open>A primary without its secondary\<close>

lemma match_primaries_missing:
  "pf \<in> set pfs \<Longrightarrow> file_ending_index ix (pf @ suffix) = None \<Longrightarrow>
   match_primaries suffix pfs ix = Inl KeyError"
proof (induction pfs arbitrary: ix)
  case Nil
  then show ?case by simp
next
  case (Cons q pfs)
  show ?case
  proof (cases "file_ending_index ix q")
    case None
    then show ?thesis by simp
  next
    case (Some a)
    show ?thesis
    proof (cases "file_ending_index ix (q @ suffix)")
      case None
      then show ?thesis using Some by simp
    next
      case (Some b)
      then have "q \<noteq> pf" using Cons.prems(2) by auto
      then have "pf \<in> set pfs" using Cons.prems(1) by simp
      then show ?thesis
        using \<open>file_ending_index ix q = Some a\<close> Some Cons.prems(2)
        by (simp add: Cons.IH)
    qed
  qed
qed

lemma index_files_index_none:
  "file_ending_index (index_files exts suffix files ix) k = None \<longleftrightarrow>
     file_ending_index ix k = None \<and> (\<forall>g \<in> set files. is_media exts g \<longrightarrow> media_name g \<noteq> k)"
  by (induction files arbitrary: ix) (auto simp: Let_def)

lemma first_pass_missing:
  assumes "f \<in> set files" "is_media exts f" "\<not> suffix_regex_search suffix (media_name f)"
    and "\<forall>g \<in> set files. is_media exts g \<longrightarrow> media_name g \<noteq> media_name f @ suffix"
  shows "first_pass exts suffix files = Inl KeyError"
proof -
  let ?ix = "index_files exts suffix files empty_index"
  have "media_name f \<in> set (primary_media ?ix)"
    unfolding index_files_primary using assms(1-3) by auto
  moreover have "file_ending_index ?ix (media_name f @ suffix) = None"
    unfolding index_files_index_none using assms(4) by (simp add: empty_index_def)
  ultimately show ?thesis
    unfolding first_pass_def Let_def by (rule match_primaries_missing)
qed

text \<open>
  C1 (as amended). For the tree \<open>root/a/img1.jpg, root/a/img1_2.png, root/b/clip.mp3\<close>
  with pairing enabled, suffix \<open>_2\<close> and \<open>recursive\<close> set, the run creates one record, for
  the pair \<open>(img1.jpg, img1_2.png)\<close>, and is then left by a \<open>KeyError\<close> raised while folder
  \<open>b\<close> is indexed. In the first pass, a trivial primary whose name plus suffix is not a key
  of the folder index is a lookup failure.
\<close>

theorem missing_secondary_is_lookup_failure:
  "run_import example_host example_settings ''root'' True [''Front'', ''Back'']
      [(''Front'', action_value Actions_media, False), (''Back'', action_value Actions_media_2, False)] scenario_tree =
     (Raised KeyError,
      \<lparr>events =
         [DeckId ''MediaImport'', ProgressStart 3, AddFile ''root/a/img1.jpg'',
          AddFile ''root/a/img1_2.png'',
          AddNote \<lparr>note_fields = [(''Front'', img_ref ''root/a/img1.jpg''),
                                  (''Back'', img_ref ''root/a/img1_2.png'')],
                   note_tags = []\<rparr> True,
          ProgressUpdate 1],
       newCount = 1, failure = False\<rparr>) \<and>
   (f \<in> set files \<and> is_media exts f \<and> \<not> suffix_regex_search suffix (media_name f) \<and>
    (\<forall>g \<in> set files. is_media exts g \<longrightarrow> media_name g \<noteq> media_name f @ suffix)
    \<longrightarrow> first_pass exts suffix files = Inl KeyError)"
proof -
  have "run_import example_host example_settings ''root'' True [''Front'', ''Back'']
      [(''Front'', action_value Actions_media, False), (''Back'', action_value Actions_media_2, False)] scenario_tree =
     (Raised KeyError,
      \<lparr>events =
         [DeckId ''MediaImport'', ProgressStart 3, AddFile ''root/a/img1.jpg'',
          AddFile ''root/a/img1_2.png'',
          AddNote \<lparr>note_fields = [(''Front'', img_ref ''root/a/img1.jpg''),
                                  (''Back'', img_ref ''root/a/img1_2.png'')],
                   note_tags = []\<rparr> True,
          ProgressUpdate 1],
       newCount = 1, failure = False\<rparr>)"
    by code_simp
  then show ?thesis using first_pass_missing by blast
qed

theorem missing_secondary_is_lookup_failure_witness:
  "first_pass [''mp3'', ''jpg''] ''_2'' [''clip.mp3''] = Inl KeyError"
proof -
  have m: "media_name ''clip.mp3'' = ''clip''"
    by (simp add: media_name_def splitext_def os_sep_def extsep_def)
  have h: "''clip.mp3'' \<in> set [''clip.mp3''] \<and> is_media [''mp3'', ''jpg''] ''clip.mp3'' \<and>
      \<not> suffix_regex_search ''_2'' (media_name ''clip.mp3'') \<and>
      (\<forall>g \<in> set [''clip.mp3'']. is_media [''mp3'', ''jpg''] g \<longrightarrow>
         media_name g \<noteq> media_name ''clip.mp3'' @ ''_2'')"
    by (simp add: m is_media_def file_ext_def splitext_def os_sep_def extsep_def lower_def
          lower_char_def suffix_match_here_def)
  from missing_secondary_is_lookup_failure
         [of "''clip.mp3''" "[''clip.mp3'']" "[''mp3'', ''jpg'']" "''_2''"] h
  show ?thesis by blast
qed

theorem missing_secondary_counterexample:
  "index_with (AUDIO example_host @ IMAGE example_host) (JStr ''_2'') [''clip.mp3''] =
     Inl KeyError \<and>
   fst (run_import example_host example_settings ''root'' True [''Front'', ''Back'']
      [(''Front'', action_value Actions_media, False), (''Back'', action_value Actions_media_2, False)] scenario_tree) = Raised KeyError"
  by code_simp

section \<open>The sequence number\<close>

text \<open>
  C4 (the code on a listing with an excluded file). With pairing disabled, the folder
  listing \<open>notes.txt, a.jpg\<close> yields one record, and its \<open>Sequence\<close> value is \<open>1\<close>, the
  index of \<open>a.jpg\<close> in the listing, not \<open>0\<close>: line 159 counts the files that line 167 skips.
\<close>

theorem sequence_counts_excluded_files:
  "run_import example_host example_settings ''root'' True [''Front'']
      [(''Front'', action_value Actions_sequence, False)]
      (Folder ''root'' [''notes.txt'', ''a.jpg''] []) =
     (Returned,
      \<lparr>events =
         [DeckId ''MediaImport'', ProgressStart 2, AddFile ''root/a.jpg'',
          AddNote \<lparr>note_fields = [(''Front'', ''1'')], note_tags = []\<rparr> True,
          ProgressUpdate 1, ProgressFinish, Tooltip 1, DeckBrowserRefresh,
          CompletionDialog 1],
       newCount = 1, failure = False\<rparr>)"
  by code_simp

section \<open>The key read at every folder\<close>

lemma walk_nonempty:
  "\<exists>items. walk recursive root rel tree = \<lparr>item_root = root, item_rel = rel, item_files = folder_files tree\<rparr> # items"
  by (cases tree) simp

text \<open>
  C10 (as amended). When neither the add-on configuration of the host, nor the transient
  settings file, nor the settings dictionary as the call finds it defines
  \<open>secondImageSuffix\<close>, an accepted import is left by a \<open>KeyError\<close> at the first folder,
  after the progress bar was started and before any file is stored or any record created.
  \<open>initializeSettings\<close> installs the keys \<open>loadFolder\<close>, \<open>includeSubfolders\<close>,
  \<open>fieldSettings\<close>, \<open>secondMediaSuffix\<close> and \<open>showExtensionActions\<close> together with every key
  of the transient settings file and of the add-on configuration, and no other.
\<close>

theorem missing_suffix_key:
  assumes "dlg_ok dlg" and "settings ''secondImageSuffix'' = None"
    and "addon_config d ''secondImageSuffix'' = None"
    and "case transient_file d of None \<Rightarrow> True | Some t \<Rightarrow> t ''secondImageSuffix'' = None"
  shows "doMediaImport h home d settings dlg tree =
           (Raised KeyError,
            \<lparr>events = [DeckId ''MediaImport'', ProgressStart (fileCount (dlg_path dlg) tree)],
             newCount = 0, failure = False\<rparr>) \<and>
         dom (initializeSettings home d settings) =
           dom settings \<union>
           {''loadFolder'', ''includeSubfolders'', ''fieldSettings'', ''secondMediaSuffix'',
            ''showExtensionActions''} \<union>
           (case transient_file d of None \<Rightarrow> {} | Some t \<Rightarrow> dom t) \<union>
           dom (addon_config d)"
proof -
  let ?s1 = "initializeSettings home d settings"
  let ?s2 = "?s1 ++ (dlg_assigned dlg |` set dialog_keys)"
  have t: "(case transient_file d of None \<Rightarrow> Map.empty | Some t \<Rightarrow> t) ''secondImageSuffix'' = None"
    using assms(4) by (cases "transient_file d") simp_all
  have "?s1 ''secondImageSuffix'' = None"
    using assms(2,3) t
    by (simp add: initializeSettings_def mergedSettings_def map_add_def
          defaultTransientSettings_def defaultUserSettings_def Let_def)
  then have k: "?s2 ''secondImageSuffix'' = None"
    by (simp add: map_add_def dialog_keys_def restrict_map_def)
  obtain items where w: "walk (dlg_recursive dlg) (dlg_path dlg) [] tree =
      \<lparr>item_root = dlg_path dlg, item_rel = [], item_files = folder_files tree\<rparr> # items"
    using walk_nonempty by blast
  have "run_import h ?s2 (dlg_path dlg) (dlg_recursive dlg) (dlg_model dlg) (dlg_fieldList dlg) tree =
           (Raised KeyError,
            \<lparr>events = [DeckId ''MediaImport'', ProgressStart (fileCount (dlg_path dlg) tree)],
             newCount = 0, failure = False\<rparr>)"
    unfolding run_import_def Let_def w by (simp add: process_folder_def k)
  then have 1: "doMediaImport h home d settings dlg tree =
           (Raised KeyError,
            \<lparr>events = [DeckId ''MediaImport'', ProgressStart (fileCount (dlg_path dlg) tree)],
             newCount = 0, failure = False\<rparr>)"
    using assms(1) by (simp add: doMediaImport_def Let_def)
  have 2: "dom (initializeSettings home d settings) =
           dom settings \<union>
           {''loadFolder'', ''includeSubfolders'', ''fieldSettings'', ''secondMediaSuffix'',
            ''showExtensionActions''} \<union>
           (case transient_file d of None \<Rightarrow> {} | Some t \<Rightarrow> dom t) \<union>
           dom (addon_config d)"
    by (cases "transient_file d")
       (auto simp: initializeSettings_def mergedSettings_def defaultTransientSettings_def
          defaultUserSettings_def)
  from 1 2 show ?thesis by blast
qed

theorem missing_suffix_key_witness:
  "doMediaImport example_host ''/home/u'' \<lparr>transient_file = None, addon_config = Map.empty\<rparr>
     Map.empty
     \<lparr>dlg_path = ''root'', dlg_recursive = True, dlg_model = [''Front''],
      dlg_fieldList = [(''Front'', action_value Actions_media, False)], dlg_ok = True,
      dlg_assigned = [''loadFolder'' \<mapsto> JStr ''root'']\<rparr>
     scenario_tree =
   (Raised KeyError,
    \<lparr>events = [DeckId ''MediaImport'', ProgressStart 3], newCount = 0, failure = False\<rparr>)"
proof -
  have c: "fileCount ''root'' scenario_tree = 3" by code_simp
  from missing_suffix_key
         [of "\<lparr>dlg_path = ''root'', dlg_recursive = True, dlg_model = [''Front''],
               dlg_fieldList = [(''Front'', action_value Actions_media, False)], dlg_ok = True,
               dlg_assigned = [''loadFolder'' \<mapsto> JStr ''root'']\<rparr>"
             Map.empty "\<lparr>transient_file = None, addon_config = Map.empty\<rparr>"
             example_host "''/home/u''" scenario_tree]
  show ?thesis by (simp add: c)
qed

theorem missing_suffix_key_counterexample:
  "addon_config moved_suffix_disk ''secondImageSuffix'' = None \<and>
   doMediaImport example_host ''/home/u'' moved_suffix_disk Map.empty
     \<lparr>dlg_path = ''root'', dlg_recursive = True, dlg_model = [''Front''],
      dlg_fieldList = [(''Front'', action_value Actions_file_name, False)], dlg_ok = True,
      dlg_assigned = [''loadFolder'' \<mapsto> JStr ''root'']\<rparr>
     (Folder ''root'' [''a.jpg''] []) =
   (Returned,
    \<lparr>events =
       [DeckId ''MediaImport'', ProgressStart 1, AddFile ''root/a.jpg'',
        AddNote \<lparr>note_fields = [(''Front'', ''a'')], note_tags = []\<rparr> True,
        ProgressUpdate 1, ProgressFinish, Tooltip 1, DeckBrowserRefresh, CompletionDialog 1],
     newCount = 1, failure = False\<rparr>) \<and>
   (\<exists>d t. saveSettings
            (initializeSettings ''/home/u''
               \<lparr>transient_file = None,
                addon_config = [''secondImageSuffix'' \<mapsto> JStr ''_2'']\<rparr> Map.empty) = Inr d \<and>
          addon_config d ''secondImageSuffix'' = None \<and>
          transient_file d = Some t \<and> t ''secondImageSuffix'' = Some (JStr ''_2''))"
proof -
  have 1: "addon_config moved_suffix_disk ''secondImageSuffix'' = None"
    by (simp add: moved_suffix_disk_def)
  have 2: "doMediaImport example_host ''/home/u'' moved_suffix_disk Map.empty
     \<lparr>dlg_path = ''root'', dlg_recursive = True, dlg_model = [''Front''],
      dlg_fieldList = [(''Front'', action_value Actions_file_name, False)], dlg_ok = True,
      dlg_assigned = [''loadFolder'' \<mapsto> JStr ''root'']\<rparr>
     (Folder ''root'' [''a.jpg''] []) =
   (Returned,
    \<lparr>events =
       [DeckId ''MediaImport'', ProgressStart 1, AddFile ''root/a.jpg'',
        AddNote \<lparr>note_fields = [(''Front'', ''a'')], note_tags = []\<rparr> True,
        ProgressUpdate 1, ProgressFinish, Tooltip 1, DeckBrowserRefresh, CompletionDialog 1],
     newCount = 1, failure = False\<rparr>)"
    by code_simp
  have 3: "\<exists>d t. saveSettings
            (initializeSettings ''/home/u''
               \<lparr>transient_file = None,
                addon_config = [''secondImageSuffix'' \<mapsto> JStr ''_2'']\<rparr> Map.empty) = Inr d \<and>
          addon_config d ''secondImageSuffix'' = None \<and>
          transient_file d = Some t \<and> t ''secondImageSuffix'' = Some (JStr ''_2'')"
    by (simp add: saveSettings_def default_user_keys_def initializeSettings_def
          mergedSettings_def defaultTransientSettings_def defaultUserSettings_def
          restrict_map_def)
  from 1 2 3 show ?thesis by blast
qed

section \<open>Record creation and progress over a run\<close>

lemma marks_append: "marks (xs @ ys) = marks xs @ marks ys"
  by (induction xs rule: marks.induct) auto

lemma ladder_0: "ladder 0 = []"
  by (simp add: ladder_def)

lemma ladder_Suc: "ladder (Suc c) = ladder c @ [Created, Tick (Suc c)]"
  by (simp add: ladder_def)

lemma clean_trace_AddFile: "clean_trace evs c \<Longrightarrow> clean_trace (evs @ [AddFile p]) c"
  by (simp add: clean_trace_def marks_append)

lemma clean_trace_created:
  "clean_trace evs c \<Longrightarrow> clean_trace (evs @ [AddNote n True, ProgressUpdate (Suc c)]) (Suc c)"
  by (simp add: clean_trace_def marks_append ladder_Suc)

lemma good_AddFile: "good st \<Longrightarrow> good (st\<lparr>events := events st @ [AddFile p]\<rparr>)"
  by (simp add: good_def clean_trace_AddFile)

lemma good_created:
  "good st \<Longrightarrow>
   good (st\<lparr>events := events st @ [AddNote n True, ProgressUpdate (newCount st + 1)],
           newCount := newCount st + 1\<rparr>)"
  by (simp add: good_def clean_trace_created)

lemma good_failed:
  "good st \<Longrightarrow> aborted (st\<lparr>events := events st @ [AddNote n False], failure := True\<rparr>)"
  by (auto simp: good_def aborted_def)

lemma import_file_after:
  assumes "good st"
  shows "after (fst (import_file h pairs model fieldList root rel item st))
               (snd (import_file h pairs model fieldList root rel item st))"
proof (cases "is_media (AUDIO h @ IMAGE h) (snd item)")
  case False
  then show ?thesis using assms by (simp add: import_file_def after_def Let_def)
next
  case True
  let ?p = "path_join root (snd item)"
  let ?st1 = "st\<lparr>events := events st @ [AddFile ?p]\<rparr>"
  have g1: "good ?st1" using assms by (rule good_AddFile)
  show ?thesis
  proof (cases pairs)
    case None
    have g2: "good ?st1" by (rule g1)
    show ?thesis
      using True None g2 good_created[OF g2] good_failed[OF g2]
      by (auto simp: import_file_def after_def Let_def split: sum.splits)
  next
    case (Some pair_index)
    show ?thesis
    proof (cases "map_of pair_index (snd item)")
      case None
      then show ?thesis using True Some g1
        by (simp add: import_file_def after_def Let_def)
    next
      case (Some secondName)
      let ?st2 = "?st1\<lparr>events := events ?st1 @ [AddFile (path_join root secondName)]\<rparr>"
      have g2: "good ?st2" using g1 by (rule good_AddFile)
      show ?thesis
        using True \<open>pairs = Some pair_index\<close> Some g2 good_created[OF g2] good_failed[OF g2]
        by (auto simp: import_file_def after_def Let_def split: sum.splits)
    qed
  qed
qed

lemma import_files_after:
  "good st \<Longrightarrow>
   after (fst (import_files h pairs model fieldList root rel items st))
         (snd (import_files h pairs model fieldList root rel items st))"
proof (induction items arbitrary: st)
  case Nil
  then show ?case by (simp add: after_def)
next
  case (Cons item items)
  obtain sig st' where r: "import_file h pairs model fieldList root rel item st = (sig, st')"
    by (cases "import_file h pairs model fieldList root rel item st")
  from import_file_after[OF Cons.prems, of h pairs model fieldList root rel item] r
  have a: "after sig st'" by simp
  show ?case
  proof (cases sig)
    case Next
    then have "good st'" using a by (simp add: after_def)
    from Cons.IH[OF this] show ?thesis using r Next by simp
  next
    case Break
    then show ?thesis using r a by simp
  next
    case (Raise e)
    then show ?thesis using r a by simp
  qed
qed

lemma process_folder_after:
  "good st \<Longrightarrow>
   after (fst (process_folder h settings model fieldList item st))
         (snd (process_folder h settings model fieldList item st))"
  using import_files_after[of st]
  by (auto simp: process_folder_def after_def split: option.splits sum.splits)

lemma process_folders_after:
  "good st \<Longrightarrow>
   after (fst (process_folders h settings model fieldList items st))
         (snd (process_folders h settings model fieldList items st))"
proof (induction items arbitrary: st)
  case Nil
  then show ?case by (simp add: after_def)
next
  case (Cons item items)
  obtain sig st' where r: "process_folder h settings model fieldList item st = (sig, st')"
    by (cases "process_folder h settings model fieldList item st")
  from process_folder_after[OF Cons.prems, of h settings model fieldList item] r
  have a: "after sig st'" by simp
  show ?case
  proof (cases sig)
    case Next
    then have "good st'" using a by (simp add: after_def)
    from Cons.IH[OF this] show ?thesis using r Next by simp
  next
    case Break
    then show ?thesis using r a by simp
  next
    case (Raise e)
    then show ?thesis using r a by simp
  qed
qed

lemma created_marks:
  "length (filter is_created evs) = length (filter (\<lambda>m. m = Created) (marks evs))"
  by (induction evs rule: marks.induct) auto

lemma created_ladder: "length (filter (\<lambda>m. m = Created) (ladder c)) = c"
  by (induction c) (simp_all add: ladder_0 ladder_Suc)

lemma clean_trace_count: "clean_trace evs c \<Longrightarrow> length (filter is_created evs) = c"
  by (simp add: clean_trace_def created_marks created_ladder)

lemma good_start:
  "good \<lparr>events = [DeckId nm, ProgressStart k], newCount = 0, failure = False\<rparr>"
  by (simp add: good_def clean_trace_def ladder_0)

lemma run_import_cases:
  obtains (completed) st1 where
      "run_import h settings path recursive model fieldList tree =
         (Returned, st1\<lparr>events := events st1 @
            [ProgressFinish, Tooltip (newCount st1), DeckBrowserRefresh,
             CompletionDialog (newCount st1)]\<rparr>)"
      "good st1"
  | (aborted) st1 where
      "run_import h settings path recursive model fieldList tree =
         (Returned, st1\<lparr>events := events st1 @
            [ProgressFinish, Tooltip (newCount st1), DeckBrowserRefresh, FailureDialog]\<rparr>)"
      "aborted st1"
  | (raised) e st1 where
      "run_import h settings path recursive model fieldList tree = (Raised e, st1)"
      "good st1"
proof -
  let ?st0 = "\<lparr>events = [DeckId ''MediaImport'', ProgressStart (fileCount path tree)],
               newCount = 0, failure = False\<rparr>"
  let ?r = "process_folders h settings model fieldList (walk recursive path [] tree) ?st0"
  obtain sig st1 where r: "?r = (sig, st1)" by (cases ?r)
  have "after (fst ?r) (snd ?r)" by (rule process_folders_after) (rule good_start)
  then have a: "after sig st1" using r by simp
  show thesis
  proof (cases sig)
    case Next
    then have g: "good st1" using a by (simp add: after_def)
    then have "\<not> failure st1" by (simp add: good_def)
    then show thesis using completed[OF _ g] r Next by (simp add: run_import_def)
  next
    case Break
    then have g: "aborted st1" using a by (simp add: after_def)
    then have "failure st1" by (simp add: aborted_def)
    then show thesis using aborted[OF _ g] r Break by (simp add: run_import_def)
  next
    case (Raise e)
    then have g: "good st1" using a by (simp add: after_def)
    then show thesis using raised[OF _ g] r Raise by (simp add: run_import_def)
  qed
qed

text \<open>
  C5. In every run in which the host reports a failed record creation, the call returns
  with the failure flag set; the failed creation is the last call of the loops, followed
  only by the end of the progress bar, the tooltip with the number of records created, the
  refresh and the failure dialog; the calls made before the failure (files stored, records
  created) are all still there, none of them a failure, and the records created among them
  are as many as the count shown.
\<close>

theorem failure_aborts_run:
  assumes "run_import h settings path recursive model fieldList tree = (oc, st)"
      and "list_ex is_failed (events st)"
  shows "oc = Returned \<and> failure st \<and>
         (\<exists>pre n. events st =
                    pre @ [AddNote n False, ProgressFinish, Tooltip (newCount st),
                           DeckBrowserRefresh, FailureDialog] \<and>
                  \<not> list_ex is_failed pre \<and>
                  length (filter is_created pre) = newCount st)"
proof (cases rule: run_import_cases[of h settings path recursive model fieldList tree])
  case (completed st1)
  then have "\<not> list_ex is_failed (events st)"
    using assms(1) by (auto simp: good_def clean_trace_def)
  then show ?thesis using assms(2) by simp
next
  case (raised e st1)
  then have "\<not> list_ex is_failed (events st)"
    using assms(1) by (auto simp: good_def clean_trace_def)
  then show ?thesis using assms(2) by simp
next
  case (aborted st1)
  then obtain pre n where p: "failure st1" "events st1 = pre @ [AddNote n False]"
    "clean_trace pre (newCount st1)"
    by (auto simp: aborted_def)
  have st: "oc = Returned"
    "st = st1\<lparr>events := events st1 @
            [ProgressFinish, Tooltip (newCount st1), DeckBrowserRefresh, FailureDialog]\<rparr>"
    using aborted(1) assms(1) by simp_all
  have "events st = pre @ [AddNote n False, ProgressFinish, Tooltip (newCount st),
                           DeckBrowserRefresh, FailureDialog]"
    using st(2) p(2) by simp
  moreover have "\<not> list_ex is_failed pre" using p(3) by (simp add: clean_trace_def)
  moreover have "length (filter is_created pre) = newCount st"
    using clean_trace_count[OF p(3)] st(2) by simp
  ultimately show ?thesis using st p(1) by auto
qed

theorem failure_aborts_run_witness:
  "run_import picky_host example_settings ''root'' True [''Front'']
      [(''Front'', action_value Actions_file_name, False)]
      (Folder ''root'' [''good.jpg'', ''bad.jpg'', ''later.jpg'']
         [Folder ''sub'' [''more.jpg''] []]) =
     (Returned,
      \<lparr>events =
         [DeckId ''MediaImport'', ProgressStart 4, AddFile ''root/good.jpg'',
          AddNote \<lparr>note_fields = [(''Front'', ''good'')], note_tags = []\<rparr> True,
          ProgressUpdate 1, AddFile ''root/bad.jpg'',
          AddNote \<lparr>note_fields = [(''Front'', ''bad'')], note_tags = []\<rparr> False,
          ProgressFinish, Tooltip 1, DeckBrowserRefresh, FailureDialog],
       newCount = 1, failure = True\<rparr>) \<and>
   (\<exists>pre n. events (snd (run_import picky_host example_settings ''root'' True [''Front'']
                 [(''Front'', action_value Actions_file_name, False)]
                 (Folder ''root'' [''good.jpg'', ''bad.jpg'', ''later.jpg'']
                    [Folder ''sub'' [''more.jpg''] []]))) =
              pre @ [AddNote n False, ProgressFinish, Tooltip 1, DeckBrowserRefresh,
                     FailureDialog] \<and>
            \<not> list_ex is_failed pre \<and> length (filter is_created pre) = 1)"
proof -
  let ?st = "\<lparr>events =
         [DeckId ''MediaImport'', ProgressStart 4, AddFile ''root/good.jpg'',
          AddNote \<lparr>note_fields = [(''Front'', ''good'')], note_tags = []\<rparr> True,
          ProgressUpdate 1, AddFile ''root/bad.jpg'',
          AddNote \<lparr>note_fields = [(''Front'', ''bad'')], note_tags = []\<rparr> False,
          ProgressFinish, Tooltip 1, DeckBrowserRefresh, FailureDialog],
       newCount = 1, failure = True\<rparr>"
  have r: "run_import picky_host example_settings ''root'' True [''Front'']
      [(''Front'', action_value Actions_file_name, False)]
      (Folder ''root'' [''good.jpg'', ''bad.jpg'', ''later.jpg'']
         [Folder ''sub'' [''more.jpg''] []]) = (Returned, ?st)"
    by code_simp
  have e: "list_ex is_failed (events ?st)" by simp
  from failure_aborts_run[OF r e] r show ?thesis by simp
qed

text \<open>
  C6 (as amended). Over every run, the progress reports and the successful record
  creations alternate: each record created is followed by one report carrying the number of
  records created so far, so the reported values are 1, 2, ... up to the final count, and
  there is no other report. A file that is excluded, and the file whose record the host
  rejects, report nothing.
\<close>

theorem progress_ticks:
  "marks (events (snd (run_import h settings path recursive model fieldList tree))) =
     ladder (newCount (snd (run_import h settings path recursive model fieldList tree)))"
proof (cases rule: run_import_cases[of h settings path recursive model fieldList tree])
  case (completed st1)
  then show ?thesis by (simp add: good_def clean_trace_def marks_append)
next
  case (raised e st1)
  then show ?thesis by (simp add: good_def clean_trace_def)
next
  case (aborted st1)
  then show ?thesis by (auto simp: aborted_def clean_trace_def marks_append)
qed

theorem progress_ticks_witness:
  "marks (events (snd (run_import example_host example_settings ''root'' True [''Front'']
      [(''Front'', action_value Actions_sequence, False)]
      (Folder ''root'' [''notes.txt'', ''a.jpg''] [])))) = [Created, Tick 1]"
proof -
  have c: "newCount (snd (run_import example_host example_settings ''root'' True [''Front'']
      [(''Front'', action_value Actions_sequence, False)]
      (Folder ''root'' [''notes.txt'', ''a.jpg''] []))) = 1"
    by code_simp
  have l: "ladder 1 = [Created, Tick 1]" by (simp add: ladder_def)
  from progress_ticks[of example_host example_settings "''root''" True "[''Front'']"
         "[(''Front'', action_value Actions_sequence, False)]"
         "Folder ''root'' [''notes.txt'', ''a.jpg''] []"]
  show ?thesis unfolding c l .
qed

theorem progress_ticks_counterexample:
  "events (snd (run_import example_host example_settings ''root'' True [''Front'']
      [(''Front'', action_value Actions_file_name, False)]
      (Folder ''root'' [''notes.txt''] []))) =
     [DeckId ''MediaImport'', ProgressStart 1, ProgressFinish, Tooltip 0, DeckBrowserRefresh,
      CompletionDialog 0]"
  by code_simp

section \<open>Saving and loading the settings\<close>

lemma dom_defaultUserSettings: "dom defaultUserSettings = set default_user_keys"
  by (auto simp: defaultUserSettings_def default_user_keys_def)

lemma merged_covers:
  assumes "dom (defaultTransientSettings home) \<union> dom defaultUserSettings \<subseteq> dom s"
  shows "mergedSettings home (s |` (- set default_user_keys)) (s |` set default_user_keys) = s"
proof (rule ext)
  fix k
  show "mergedSettings home (s |` (- set default_user_keys)) (s |` set default_user_keys) k = s k"
  proof (cases "s k")
    case (Some v)
    then show ?thesis
      by (cases "k \<in> set default_user_keys")
         (simp_all add: mergedSettings_def map_add_def restrict_map_def)
  next
    case None
    then have "k \<notin> dom s" by (simp add: dom_def)
    then have "k \<notin> dom (defaultTransientSettings home)" "k \<notin> dom defaultUserSettings"
      using assms by auto
    then have "defaultTransientSettings home k = None" "defaultUserSettings k = None"
      by (simp_all add: dom_def)
    then show ?thesis using None
      by (simp add: mergedSettings_def map_add_def restrict_map_def)
  qed
qed

lemma save_succeeds:
  assumes "dom defaultUserSettings \<subseteq> dom s"
  shows "saveSettings s =
           Inr \<lparr>transient_file = Some (s |` (- set default_user_keys)),
                addon_config = s |` set default_user_keys\<rparr>"
proof -
  have "list_all (\<lambda>key. s key \<noteq> None) default_user_keys"
    using assms unfolding dom_defaultUserSettings list_all_iff by (auto simp: dom_def)
  then show ?thesis by (simp add: saveSettings_def)
qed

lemma merged_idem:
  "mergedSettings home (mergedSettings home t u) Map.empty = mergedSettings home t u"
proof (rule ext)
  fix k
  show "mergedSettings home (mergedSettings home t u) Map.empty k = mergedSettings home t u k"
    by (simp add: mergedSettings_def map_add_def split: option.splits)
qed

lemma map_add_twice: "(m ++ n) ++ n = m ++ n"
  by (rule ext) (simp add: map_add_def split: option.splits)

lemma map_add_self: "(m :: 'a \<rightharpoonup> 'b) ++ m = m"
  by (rule ext) (simp add: map_add_def split: option.splits)

lemma initialize_idem:
  "initializeSettings home d (initializeSettings home d s) = initializeSettings home d s"
  by (simp add: initializeSettings_def Let_def map_add_twice)

lemma initialized_has_defaults:
  "dom (defaultTransientSettings home) \<union> dom defaultUserSettings \<subseteq> dom (initializeSettings home d s)"
  by (auto simp: initializeSettings_def mergedSettings_def Let_def)

text \<open>
  C9. For settings that hold every default key (as they do after \<open>initializeSettings\<close>),
  \<open>saveSettings\<close> succeeds, and loading what it wrote gives the same settings back, into an
  empty dictionary as well as into the one that was saved. Merging the defaults into a
  merged document gives that document, and initializing twice from the same persisted state
  is initializing once.
\<close>

theorem settings_round_trip:
  assumes "dom (defaultTransientSettings home) \<union> dom defaultUserSettings \<subseteq> dom s"
  shows "(\<exists>d. saveSettings s = Inr d \<and>
              initializeSettings home d Map.empty = s \<and>
              initializeSettings home d s = s) \<and>
         mergedSettings home (mergedSettings home t u) Map.empty = mergedSettings home t u \<and>
         initializeSettings home d0 (initializeSettings home d0 s0) = initializeSettings home d0 s0"
proof -
  let ?d = "\<lparr>transient_file = Some (s |` (- set default_user_keys)),
             addon_config = s |` set default_user_keys\<rparr>"
  have sv: "saveSettings s = Inr ?d" using assms by (intro save_succeeds) simp
  have m: "mergedSettings home (s |` (- set default_user_keys)) (s |` set default_user_keys) = s"
    using assms by (rule merged_covers)
  have "initializeSettings home ?d Map.empty = s"
    by (simp add: initializeSettings_def m)
  moreover have "initializeSettings home ?d s = s"
    by (simp add: initializeSettings_def m map_add_self)
  ultimately show ?thesis using sv merged_idem initialize_idem by blast
qed

theorem settings_round_trip_witness:
  "saveSettings edited_settings =
     Inr \<lparr>transient_file = Some (edited_settings |` (- set default_user_keys)),
          addon_config = edited_settings |` set default_user_keys\<rparr> \<and>
   initializeSettings ''/home/u''
     \<lparr>transient_file = Some (edited_settings |` (- set default_user_keys)),
      addon_config = edited_settings |` set default_user_keys\<rparr> Map.empty = edited_settings \<and>
   edited_settings ''includeSubfolders'' = Some (JBool False) \<and>
   edited_settings ''showExtensionActions'' = Some (JBool True) \<and>
   initializeSettings ''/home/u'' \<lparr>transient_file = None, addon_config = Map.empty\<rparr> Map.empty
     \<noteq> edited_settings"
proof -
  have h: "dom (defaultTransientSettings ''/home/u'') \<union> dom defaultUserSettings \<subseteq>
      dom edited_settings"
    by (simp add: defaultTransientSettings_def defaultUserSettings_def edited_settings_def)
  have sv: "saveSettings edited_settings =
     Inr \<lparr>transient_file = Some (edited_settings |` (- set default_user_keys)),
          addon_config = edited_settings |` set default_user_keys\<rparr>"
    by (simp add: saveSettings_def default_user_keys_def edited_settings_def)
  from settings_round_trip[OF h] sv
  have rt: "initializeSettings ''/home/u''
     \<lparr>transient_file = Some (edited_settings |` (- set default_user_keys)),
      addon_config = edited_settings |` set default_user_keys\<rparr> Map.empty = edited_settings"
    by auto
  have v: "edited_settings ''includeSubfolders'' = Some (JBool False)"
    "edited_settings ''showExtensionActions'' = Some (JBool True)"
    by (simp_all add: edited_settings_def)
  have "initializeSettings ''/home/u'' \<lparr>transient_file = None, addon_config = Map.empty\<rparr>
      Map.empty ''includeSubfolders'' = Some (JBool True)"
    by (simp add: initializeSettings_def mergedSettings_def defaultTransientSettings_def
          defaultUserSettings_def)
  then have ne: "initializeSettings ''/home/u'' \<lparr>transient_file = None, addon_config = Map.empty\<rparr>
      Map.empty \<noteq> edited_settings"
    using v(1) by auto
  from sv rt v ne show ?thesis by simp
qed

end
